theory Spec2Isabelle
  imports Main "HOL-Library.Word"
begin

section \<open>Python values and errors\<close>

text \<open>The exceptions the program can raise. \<open>IOError\<close> stands for any failure
  that the HID binding reports for a transport call.\<close>

datatype py_error = IndexError | ValueError | AttributeError | TypeError | IOError

text \<open>Python list indexing \<open>xs[i]\<close>: a negative index counts from the end, an index
  out of range raises \<open>IndexError\<close>.\<close>

definition py_index :: "'a list \<Rightarrow> int \<Rightarrow> py_error + 'a" where
  "py_index xs i =
     (if 0 \<le> i \<and> i < int (length xs) then Inr (xs ! nat i)
      else if i < 0 \<and> - int (length xs) \<le> i then Inr (xs ! nat (int (length xs) + i))
      else Inl IndexError)"

text \<open>A list comprehension whose element expression may raise: the first error wins.\<close>

fun comprehension :: "('a \<Rightarrow> py_error + 'b) \<Rightarrow> 'a list \<Rightarrow> py_error + 'b list" where
  "comprehension f [] = Inr []"
| "comprehension f (x # xs) =
     (case f x of
        Inl e \<Rightarrow> Inl e
      | Inr y \<Rightarrow> (case comprehension f xs of Inl e \<Rightarrow> Inl e | Inr ys \<Rightarrow> Inr (y # ys)))"

text \<open>\<open>int(x)\<close> on a one-character string: a decimal digit gives its value, any
  other character (the sign \<open>-\<close> in particular) raises \<open>ValueError\<close>.\<close>

definition int_of_char :: "char \<Rightarrow> py_error + int" where
  "int_of_char c =
     (if c = CHR ''0'' then Inr 0 else if c = CHR ''1'' then Inr 1
      else if c = CHR ''2'' then Inr 2 else if c = CHR ''3'' then Inr 3
      else if c = CHR ''4'' then Inr 4 else if c = CHR ''5'' then Inr 5
      else if c = CHR ''6'' then Inr 6 else if c = CHR ''7'' then Inr 7
      else if c = CHR ''8'' then Inr 8 else if c = CHR ''9'' then Inr 9
      else Inl ValueError)"

text \<open>The binary digits of a natural number, most significant first, without
  leading zeros (\<open>0\<close> is rendered as \<open>''0''\<close>): the presentation type \<open>b\<close> of
  \<open>str.format\<close>.\<close>

definition bin_digit :: "nat \<Rightarrow> char" where
  "bin_digit d = (if d = 0 then CHR ''0'' else CHR ''1'')"

fun bin_str :: "nat \<Rightarrow> string" where
  "bin_str n = (if n < 2 then [bin_digit n] else bin_str (n div 2) @ [bin_digit (n mod 2)])"

declare bin_str.simps [simp del]

text \<open>Zero padding to a minimum width; a longer string is left as it is.\<close>

definition zfill :: "nat \<Rightarrow> string \<Rightarrow> string" where
  "zfill w s = replicate (w - length s) (CHR ''0'') @ s"

text \<open>\<open>'{0:08b}'.format(n)\<close>: minimum width 8 with sign-aware zero padding, so a
  negative number is rendered as \<open>-\<close> followed by at least seven digits.\<close>

definition format_08b :: "int \<Rightarrow> string" where
  "format_08b n =
     (if n < 0 then CHR ''-'' # zfill 7 (bin_str (nat (- n))) else zfill 8 (bin_str (nat n)))"

section \<open>Decoding a feature report\<close>

text \<open>\<open>Relay.get_switch_statuses_from_report\<close>: the 8th number of the report,
  rendered in binary, each digit converted with \<open>int\<close>, the list reversed.\<close>

definition get_switch_statuses_from_report :: "int list \<Rightarrow> py_error + int list" where
  "get_switch_statuses_from_report report =
     (case py_index report 7 of
        Inl e \<Rightarrow> Inl e
      | Inr switch_statuses \<Rightarrow>
          (case comprehension int_of_char (format_08b switch_statuses) of
             Inl e \<Rightarrow> Inl e
           | Inr bits \<Rightarrow> Inr (rev bits)))"

section \<open>The HID device\<close>

text \<open>The calls made on the \<open>hid.device\<close> object, recorded in the order they are
  issued.\<close>

datatype pyval = PyInt int | PyBool bool

datatype hid_call =
    HidOpen pyval pyval
  | HidSetNonblocking int
  | HidSendFeatureReport "int list"
  | HidGetFeatureReport int int
  | HidClose

text \<open>The HID binding is an external library; its behaviour is a parameter of the
  model. \<open>'h\<close> is the state of the device behind the handle. A call that raises
  leaves that state as it was.\<close>

record 'h hid =
  hid_open :: "pyval \<Rightarrow> pyval \<Rightarrow> py_error + 'h"
  hid_set_nonblocking :: "'h \<Rightarrow> int \<Rightarrow> py_error + 'h"
  hid_send_feature_report :: "'h \<Rightarrow> int list \<Rightarrow> py_error + 'h"
  hid_get_feature_report :: "'h \<Rightarrow> int \<Rightarrow> int \<Rightarrow> py_error + (int list \<times> 'h)"
  hid_close :: "'h \<Rightarrow> py_error + 'h"

text \<open>The \<open>Relay\<close> object: its device handle, and the log of the calls issued on
  it so far.\<close>

record 'h Relay =
  device_instance :: 'h
  calls :: "hid_call list"

definition issue :: "hid_call \<Rightarrow> 'h Relay \<Rightarrow> 'h Relay" where
  "issue c self = self\<lparr>calls := calls self @ [c]\<rparr>"

text \<open>\<open>Relay.cleanup\<close>.\<close>

definition cleanup :: "'h hid \<Rightarrow> 'h Relay \<Rightarrow> (py_error + unit) \<times> 'h Relay" where
  "cleanup drv self =
     (case hid_close drv (device_instance self) of
        Inl e \<Rightarrow> (Inl e, issue HidClose self)
      | Inr h \<Rightarrow> (Inr (), issue HidClose (self\<lparr>device_instance := h\<rparr>)))"

text \<open>\<open>Relay.send_feature_report\<close>.\<close>

definition send_feature_report ::
  "'h hid \<Rightarrow> 'h Relay \<Rightarrow> int list \<Rightarrow> (py_error + unit) \<times> 'h Relay" where
  "send_feature_report drv self message =
     (case hid_send_feature_report drv (device_instance self) message of
        Inl e \<Rightarrow> (Inl e, issue (HidSendFeatureReport message) self)
      | Inr h \<Rightarrow> (Inr (), issue (HidSendFeatureReport message) (self\<lparr>device_instance := h\<rparr>)))"

text \<open>\<open>Relay.get_feature_report\<close>: feature 1, length 8.\<close>

definition get_feature_report ::
  "'h hid \<Rightarrow> 'h Relay \<Rightarrow> (py_error + int list) \<times> 'h Relay" where
  "get_feature_report drv self =
     (let feature = 1; len = 8 in
      case hid_get_feature_report drv (device_instance self) feature len of
        Inl e \<Rightarrow> (Inl e, issue (HidGetFeatureReport feature len) self)
      | Inr (report, h) \<Rightarrow>
          (Inr report, issue (HidGetFeatureReport feature len) (self\<lparr>device_instance := h\<rparr>)))"

section \<open>The getter and setter\<close>

text \<open>What \<open>Relay.state\<close> returns: the list of all statuses, or one status.\<close>

datatype status = StatusList "bool list" | StatusBool bool

text \<open>\<open>bool(x)\<close> on an integer.\<close>

definition py_bool :: "int \<Rightarrow> bool" where
  "py_bool x = (x \<noteq> 0)"

text \<open>The message built in the setter branch of \<open>Relay.state\<close>.\<close>

definition state_message :: "int \<Rightarrow> bool \<Rightarrow> int list" where
  "state_message relayport turnon =
     (if relayport = 0 then
        (if turnon then [0xFE] else [0xFC])
      else
        (if turnon then [0xFF, relayport] else [0xFD, relayport]))"

text \<open>The two statements both getter branches of \<open>Relay.state\<close> start with:
  read the report and decode it.\<close>

definition read_switch_statuses ::
  "'h hid \<Rightarrow> 'h Relay \<Rightarrow> (py_error + int list) \<times> 'h Relay" where
  "read_switch_statuses drv self =
     (case get_feature_report drv self of
        (Inl e, self') \<Rightarrow> (Inl e, self')
      | (Inr report, self') \<Rightarrow> (get_switch_statuses_from_report report, self'))"

text \<open>The second half of \<open>Relay.state\<close>, from \<open>if relayport == 0\<close> on.\<close>

definition state_read :: "'h hid \<Rightarrow> 'h Relay \<Rightarrow> int \<Rightarrow> (py_error + status) \<times> 'h Relay" where
  "state_read drv self relayport =
     (if relayport = 0 then
        (case read_switch_statuses drv self of
           (Inl e, self') \<Rightarrow> (Inl e, self')
         | (Inr switch_statuses, self') \<Rightarrow>
             (Inr (StatusList (map py_bool switch_statuses)), self'))
      else
        (case read_switch_statuses drv self of
           (Inl e, self') \<Rightarrow> (Inl e, self')
         | (Inr switch_statuses, self') \<Rightarrow>
             (case py_index switch_statuses (relayport - 1) of
                Inl e \<Rightarrow> (Inl e, self')
              | Inr switch_status \<Rightarrow> (Inr (StatusBool (py_bool switch_status)), self'))))"

text \<open>\<open>Relay.state\<close>. \<open>turnon\<close> is \<open>None\<close>, \<open>True\<close> or \<open>False\<close>.\<close>

definition state ::
  "'h hid \<Rightarrow> 'h Relay \<Rightarrow> int \<Rightarrow> bool option \<Rightarrow> (py_error + status) \<times> 'h Relay" where
  "state drv self relayport turnon =
     (case turnon of
        None \<Rightarrow> state_read drv self relayport
      | Some t \<Rightarrow>
          (case send_feature_report drv self (state_message relayport t) of
             (Inl e, self') \<Rightarrow> (Inl e, self')
           | (Inr _, self') \<Rightarrow> state_read drv self' relayport))"

section \<open>The command line\<close>

text \<open>\<open>Relay.__init__\<close>: open the device and make it non-blocking. A failure is
  returned with the calls issued up to it.\<close>

definition Relay_init ::
  "'h hid \<Rightarrow> pyval \<Rightarrow> pyval \<Rightarrow> (py_error \<times> hid_call list) + 'h Relay" where
  "Relay_init drv idvendor idproduct =
     (case hid_open drv idvendor idproduct of
        Inl e \<Rightarrow> Inl (e, [HidOpen idvendor idproduct])
      | Inr h \<Rightarrow>
          (case hid_set_nonblocking drv h 1 of
             Inl e \<Rightarrow> Inl (e, [HidOpen idvendor idproduct, HidSetNonblocking 1])
           | Inr h' \<Rightarrow>
               Inr \<lparr> device_instance = h',
                     calls = [HidOpen idvendor idproduct, HidSetNonblocking 1] \<rparr>))"

text \<open>The namespace \<open>parse_args\<close> returns: one attribute for each
  \<open>add_argument\<close>, named after its option string, holding the text given on the
  command line or \<open>None\<close>. \<open>--port\<close> is required.\<close>

type_synonym namespace = "string \<rightharpoonup> string option"

definition parse_args ::
  "string \<Rightarrow> string option \<Rightarrow> string option \<Rightarrow> string option \<Rightarrow> namespace" where
  "parse_args port switch idVvendor idProduct =
     [''port'' \<mapsto> Some port, ''switch'' \<mapsto> switch,
      ''idVvendor'' \<mapsto> idVvendor, ''idProduct'' \<mapsto> idProduct]"

text \<open>Reading an attribute of the namespace: a name it does not have raises
  \<open>AttributeError\<close>.\<close>

definition getattr :: "namespace \<Rightarrow> string \<Rightarrow> py_error + string option" where
  "getattr args name = (case args name of None \<Rightarrow> Inl AttributeError | Some v \<Rightarrow> Inr v)"

text \<open>\<open>int(s)\<close> on a string, for ASCII input: surrounding whitespace (space and
  the characters 0x09 to 0x0D) is dropped, then an optional sign and decimal digits,
  which single underscores may group. More than 4300 digits raise \<open>ValueError\<close>
  (the default limit of CPython 3.11 on the conversion).\<close>

definition is_space :: "char \<Rightarrow> bool" where
  "is_space c =
     (c = CHR '' '' \<or> c = CHR 0x09 \<or> c = CHR 0x0A \<or> c = CHR 0x0B \<or> c = CHR 0x0C
      \<or> c = CHR 0x0D)"

definition strip :: "string \<Rightarrow> string" where
  "strip s = rev (dropWhile is_space (rev (dropWhile is_space s)))"

fun well_grouped :: "string \<Rightarrow> bool" where
  "well_grouped [] = False"
| "well_grouped [c] = (case int_of_char c of Inl _ \<Rightarrow> False | Inr _ \<Rightarrow> True)"
| "well_grouped (c # d # cs) =
     (case int_of_char c of
        Inl _ \<Rightarrow> False
      | Inr _ \<Rightarrow> (if d = CHR ''_'' then well_grouped cs else well_grouped (d # cs)))"

definition digits_value :: "string \<Rightarrow> int" where
  "digits_value s =
     foldl (\<lambda>a c. case int_of_char c of Inl _ \<Rightarrow> a | Inr d \<Rightarrow> 10 * a + d) 0 s"

definition py_int :: "string \<Rightarrow> py_error + int" where
  "py_int s =
     (let t = strip s;
          neg = (case t of [] \<Rightarrow> False | c # _ \<Rightarrow> c = CHR ''-'');
          body = (case t of [] \<Rightarrow> [] | c # r \<Rightarrow> if c = CHR ''-'' \<or> c = CHR ''+'' then r else t)
      in if well_grouped body \<and> length (filter (\<lambda>c. c \<noteq> CHR ''_'') body) \<le> 4300
         then Inr (if neg then - digits_value body else digits_value body)
         else Inl ValueError)"

text \<open>The truth value of an optional string: \<open>None\<close> and the empty string are
  false.\<close>

definition truthy :: "string option \<Rightarrow> bool" where
  "truthy v = (case v of None \<Rightarrow> False | Some s \<Rightarrow> s \<noteq> [])"

text \<open>The arguments the main block computes from the namespace, in the order it
  evaluates them: \<open>port\<close>, \<open>switchOn\<close>, and the two keyword arguments of
  \<open>Relay(...)\<close>, each the conditional expression \<open>a is not None if a else default\<close>.\<close>

definition main_args :: "namespace \<Rightarrow> py_error + (int \<times> bool option \<times> pyval \<times> pyval)" where
  "main_args args =
     (case getattr args ''port'' of
        Inl e \<Rightarrow> Inl e
      | Inr None \<Rightarrow> Inl TypeError
      | Inr (Some p) \<Rightarrow>
     (case py_int p of
        Inl e \<Rightarrow> Inl e
      | Inr port \<Rightarrow>
     (case getattr args ''switch'' of
        Inl e \<Rightarrow> Inl e
      | Inr switch \<Rightarrow>
     (let switchOn = (if switch = Some ''False'' then Some False
                      else if switch = Some ''True'' then Some True
                      else None) in
      case getattr args ''idVendor'' of
        Inl e \<Rightarrow> Inl e
      | Inr vend \<Rightarrow>
     (let idvendor = (if truthy vend then PyBool (vend \<noteq> None) else PyInt 0x16c0) in
      case getattr args ''idProduct'' of
        Inl e \<Rightarrow> Inl e
      | Inr prd \<Rightarrow>
     (let idproduct = (if truthy prd then PyBool (prd \<noteq> None) else PyInt 0x05df) in
      Inr (port, switchOn, idvendor, idproduct)))))))"

text \<open>The main block: what is printed, or the exception that ends the program, and
  the calls issued on the device. The registered \<open>cleanup\<close> runs at exit once the
  \<open>Relay\<close> exists.\<close>

definition main :: "'h hid \<Rightarrow> namespace \<Rightarrow> (py_error + status) \<times> hid_call list" where
  "main drv args =
     (case main_args args of
        Inl e \<Rightarrow> (Inl e, [])
      | Inr (port, switchOn, idvendor, idproduct) \<Rightarrow>
          (case Relay_init drv idvendor idproduct of
             Inl (e, cs) \<Rightarrow> (Inl e, cs)
           | Inr relay \<Rightarrow>
               (case state drv relay port switchOn of
                  (result, relay') \<Rightarrow> (result, calls (snd (cleanup drv relay'))))))"

text \<open>A device that accepts every call and answers every read with the same report.\<close>

definition fixed_device :: "int list \<Rightarrow> unit hid" where
  "fixed_device report =
     \<lparr> hid_open = (\<lambda>v p. Inr ()),
       hid_set_nonblocking = (\<lambda>h n. Inr h),
       hid_send_feature_report = (\<lambda>h m. Inr h),
       hid_get_feature_report = (\<lambda>h f l. Inr (report, h)),
       hid_close = (\<lambda>h. Inr h) \<rparr>"

definition fresh :: "unit Relay" where
  "fresh = \<lparr> device_instance = (), calls = [] \<rparr>"

section \<open>The binary rendering\<close>

lemma bin_str_small: "n < 2 \<Longrightarrow> bin_str n = [bin_digit n]"
  by (subst bin_str.simps) simp

lemma bin_str_big: "2 \<le> n \<Longrightarrow> bin_str n = bin_str (n div 2) @ [bin_digit (n mod 2)]"
  by (subst bin_str.simps) simp

lemma bin_str_nonempty: "bin_str n \<noteq> []"
  by (subst bin_str.simps) simp

lemma bin_digit_low: "n < 2 \<Longrightarrow> bin_digit n = bin_digit (n mod 2)"
  by simp

lemma length_bin_str_le: "0 < k \<Longrightarrow> n < 2 ^ k \<Longrightarrow> length (bin_str n) \<le> k"
proof (induction k arbitrary: n)
  case 0
  then show ?case by simp
next
  case (Suc k)
  show ?case
  proof (cases "n < 2")
    case True
    then show ?thesis by (simp add: bin_str_small)
  next
    case False
    then have big: "2 \<le> n" by simp
    have "0 < k"
    proof (rule ccontr)
      assume "\<not> 0 < k"
      then have "k = 0" by simp
      with Suc.prems big show False by simp
    qed
    moreover have "n div 2 < 2 ^ k" using Suc.prems by simp
    ultimately have "length (bin_str (n div 2)) \<le> k" by (rule Suc.IH)
    then show ?thesis by (simp add: bin_str_big [OF big])
  qed
qed

lemma length_bin_str_gt: "2 ^ k \<le> n \<Longrightarrow> k < length (bin_str n)"
proof (induction k arbitrary: n)
  case 0
  then show ?case using bin_str_nonempty [of n] by (cases "bin_str n") simp_all
next
  case (Suc k)
  then have big: "2 \<le> n"
  proof -
    have a: "(2::nat) \<le> 2 * 2 ^ k" by simp
    have b: "(2::nat) * 2 ^ k \<le> n" using Suc.prems by simp
    from a b show ?thesis by (rule le_trans)
  qed
  have "2 ^ k \<le> n div 2" using Suc.prems by simp
  then have "k < length (bin_str (n div 2))" by (rule Suc.IH)
  then show ?case by (simp add: bin_str_big [OF big])
qed

lemma rev_zfill_bin_str:
  "0 < k \<Longrightarrow> n < 2 ^ k \<Longrightarrow>
   rev (zfill k (bin_str n)) = map (\<lambda>i. bin_digit (n div 2 ^ i mod 2)) [0..<k]"
proof (induction k arbitrary: n)
  case 0
  then show ?case by simp
next
  case (Suc k)
  have split: "[0..<Suc k] = 0 # map Suc [0..<k]"
    by (simp add: upt_conv_Cons map_Suc_upt del: upt_Suc)
  have shift: "map (\<lambda>i. bin_digit (n div 2 ^ i mod 2)) (map Suc [0..<k])
             = map (\<lambda>i. bin_digit (n div 2 div 2 ^ i mod 2)) [0..<k]"
    by (simp add: div_mult2_eq)
  have unfold: "map (\<lambda>i. bin_digit (n div 2 ^ i mod 2)) [0..<Suc k]
              = bin_digit (n mod 2) # map (\<lambda>i. bin_digit (n div 2 div 2 ^ i mod 2)) [0..<k]"
    unfolding split list.map(2) shift by simp
  show ?case
  proof (cases "n < 2")
    case True
    then have z: "n div 2 = 0" by simp
    have "rev (zfill (Suc k) (bin_str n)) = bin_digit n # replicate k (CHR ''0'')"
      using True by (simp add: bin_str_small zfill_def)
    moreover have "map (\<lambda>i. bin_digit (n div 2 div 2 ^ i mod 2)) [0..<k] = replicate k (CHR ''0'')"
      by (simp add: z bin_digit_def map_replicate_const)
    ultimately show ?thesis
      unfolding unfold using True by simp
  next
    case False
    then have big: "2 \<le> n" by simp
    have kpos: "0 < k"
    proof (rule ccontr)
      assume "\<not> 0 < k"
      then have "k = 0" by simp
      with Suc.prems big show False by simp
    qed
    have small: "n div 2 < 2 ^ k" using Suc.prems by simp
    have IH: "rev (zfill k (bin_str (n div 2))) = map (\<lambda>i. bin_digit (n div 2 div 2 ^ i mod 2)) [0..<k]"
      using kpos small by (rule Suc.IH)
    have len: "length (bin_str (n div 2)) \<le> k"
      using kpos small by (rule length_bin_str_le)
    have "zfill (Suc k) (bin_str n) = zfill k (bin_str (n div 2)) @ [bin_digit (n mod 2)]"
      using len by (simp add: bin_str_big [OF big] zfill_def)
    then show ?thesis
      unfolding unfold by (simp add: IH)
  qed
qed


lemma comprehension_map:
  "(\<And>x. f (g x) = Inr (h x)) \<Longrightarrow> comprehension f (map g xs) = Inr (map h xs)"
  by (induction xs) simp_all

lemma int_of_char_bin_digit: "int_of_char (bin_digit d) = Inr (if d = 0 then 0 else 1)"
  by (simp add: int_of_char_def bin_digit_def)

lemma py_index_7: "7 < length report \<Longrightarrow> py_index report 7 = Inr (report ! 7)"
  by (simp add: py_index_def)

lemma bit_value_int:
  "0 \<le> b \<Longrightarrow> (if nat b div 2 ^ i mod 2 = 0 then 0 else 1) = b div 2 ^ i mod (2::int)"
proof -
  assume "0 \<le> b"
  then have "int (nat b div 2 ^ i mod 2) = b div 2 ^ i mod 2"
    by (simp add: zmod_int zdiv_int)
  moreover have "nat b div 2 ^ i mod 2 = 0 \<or> nat b div 2 ^ i mod 2 = 1" by presburger
  ultimately show ?thesis by auto
qed

lemma format_08b_byte:
  assumes "0 \<le> b" and "b \<le> 255"
  shows "rev (format_08b b) = map (\<lambda>i. bin_digit (nat b div 2 ^ i mod 2)) [0..<8]"
proof -
  have "nat b < 2 ^ 8" using assms by simp
  then have "rev (zfill 8 (bin_str (nat b))) = map (\<lambda>i. bin_digit (nat b div 2 ^ i mod 2)) [0..<8]"
    by (intro rev_zfill_bin_str) simp_all
  then show ?thesis using assms by (simp add: format_08b_def)
qed

lemma comprehension_rev:
  "comprehension int_of_char (rev (map bin_digit ds)) = Inr (rev (map (\<lambda>d. if d = 0 then 0 else 1) ds))"
proof -
  have "comprehension int_of_char (map bin_digit (rev ds)) = Inr (map (\<lambda>d. if d = 0 then 0 else 1) (rev ds))"
    by (rule comprehension_map) (rule int_of_char_bin_digit)
  then show ?thesis by (simp add: rev_map)
qed

lemma decode_byte:
  assumes "7 < length report" and "0 \<le> report ! 7" and "report ! 7 \<le> 255"
  shows "get_switch_statuses_from_report report = Inr (map (\<lambda>i. report ! 7 div 2 ^ i mod 2) [0..<8])"
proof -
  let ?b = "report ! 7"
  let ?ds = "map (\<lambda>i. nat ?b div 2 ^ i mod 2) [0..<8]"
  have "rev (format_08b ?b) = map bin_digit ?ds"
    using format_08b_byte [OF assms(2,3)] by (simp add: comp_def)
  then have "format_08b ?b = rev (map bin_digit ?ds)" by (metis rev_rev_ident)
  then have "comprehension int_of_char (format_08b ?b) = Inr (rev (map (\<lambda>d. if d = 0 then 0 else 1) ?ds))"
    by (simp only: comprehension_rev)
  moreover have "map (\<lambda>d. if d = 0 then 0 else 1) ?ds = map (\<lambda>i. ?b div 2 ^ i mod 2) [0..<8]"
    using bit_value_int [OF assms(2)] by (simp add: comp_def)
  ultimately show ?thesis
    using py_index_7 [OF assms(1)] by (simp add: get_switch_statuses_from_report_def)
qed


lemma bit_int_div: "of_bool (bit (b::int) i) = b div 2 ^ i mod 2"
  by (simp add: bit_iff_odd of_bool_odd_eq_mod_2)

lemma digit_chars_of_bits:
  "map (\<lambda>x. if x = (0::int) then CHR ''0'' else CHR ''1'') (map (\<lambda>d. if d = (0::nat) then 0 else 1) ds)
   = map bin_digit ds"
  by (simp add: bin_digit_def comp_def)

section \<open>Properties of the decoder\<close>

text \<open>C1. For an 8-element report whose last number \<open>b\<close> is a byte, the decoder
  returns eight numbers, the \<open>i\<close>-th being bit \<open>i\<close> of \<open>b\<close> (least significant
  first); written back as digit characters they are the 8-digit binary rendering of
  \<open>b\<close> in reverse order.\<close>

theorem decode_report_bits:
  assumes "length report = 8" and "0 \<le> report ! 7" and "report ! 7 \<le> 255"
  shows "get_switch_statuses_from_report report
           = Inr (map (\<lambda>i. of_bool (bit (report ! 7) i)) [0..<8])
       \<and> map (\<lambda>x. if x = (0::int) then CHR ''0'' else CHR ''1'')
             (map (\<lambda>i. of_bool (bit (report ! 7) i)) [0..<8])
           = rev (format_08b (report ! 7))"
proof -
  let ?b = "report ! 7"
  have len: "7 < length report" using assms(1) by simp
  have bits: "map (\<lambda>i. of_bool (bit ?b i)) [0..<8] = map (\<lambda>i. ?b div 2 ^ i mod 2) [0..<8]"
    by (simp only: bit_int_div)
  have dec: "get_switch_statuses_from_report report = Inr (map (\<lambda>i. ?b div 2 ^ i mod 2) [0..<8])"
    using len assms(2,3) by (rule decode_byte)
  have "map (\<lambda>i. ?b div 2 ^ i mod 2) [0..<8]
          = map (\<lambda>d. if d = 0 then 0 else 1) (map (\<lambda>i. nat ?b div 2 ^ i mod 2) [0..<8])"
    using bit_value_int [OF assms(2)] by (simp add: comp_def)
  then have "map (\<lambda>x. if x = 0 then CHR ''0'' else CHR ''1'') (map (\<lambda>i. ?b div 2 ^ i mod 2) [0..<8])
          = map bin_digit (map (\<lambda>i. nat ?b div 2 ^ i mod 2) [0..<8])"
    by (simp only: digit_chars_of_bits)
  also have "\<dots> = rev (format_08b ?b)"
    using format_08b_byte [OF assms(2,3)] by (simp add: comp_def)
  finally show ?thesis using dec by (simp only: bits simp_thms)
qed

theorem decode_report_bits_witness:
  "get_switch_statuses_from_report [76, 72, 67, 88, 73, 0, 0, 2] = Inr [0, 1, 0, 0, 0, 0, 0, 0]
   \<and> map py_bool [0, 1, 0, 0, 0, 0, 0, 0]
       = [False, True, False, False, False, False, False, False]
   \<and> rev (format_08b 2) = ''01000000''"
proof -
  have up: "[0..<8] = [0, 1, 2, 3, 4, 5, 6, 7]" by (simp add: upt_rec)
  have l: "length [76, 72, 67, 88, 73, 0, 0, 2 :: int] = 8" by simp
  have lo: "0 \<le> [76, 72, 67, 88, 73, 0, 0, 2 :: int] ! 7" by simp
  have hi: "[76, 72, 67, 88, 73, 0, 0, 2 :: int] ! 7 \<le> 255" by simp
  show ?thesis
    using decode_report_bits [OF l lo hi] by (simp add: up py_bool_def bit_numeral_simps flip: bit_0 )
qed

lemma comprehension_length: "comprehension f xs = Inr ys \<Longrightarrow> length ys = length xs"
  by (induction xs arbitrary: ys) (auto split: sum.splits)

lemma bin_str_digits: "\<exists>ds. bin_str n = map bin_digit ds"
proof (induction n rule: bin_str.induct)
  case (1 n)
  show ?case
  proof (cases "n < 2")
    case True
    then have "bin_str n = map bin_digit [n]" by (simp add: bin_str_small)
    then show ?thesis ..
  next
    case False
    then obtain ds where "bin_str (n div 2) = map bin_digit ds" using 1 by blast
    with False have "bin_str n = map bin_digit (ds @ [n mod 2])" by (simp add: bin_str_big)
    then show ?thesis ..
  qed
qed

lemma zfill_digits: "\<exists>ds. zfill w (bin_str n) = map bin_digit ds"
proof -
  obtain ds where "bin_str n = map bin_digit ds" using bin_str_digits by blast
  then have "zfill w (bin_str n) = map bin_digit (replicate (w - length (bin_str n)) 0 @ ds)"
    by (simp add: zfill_def bin_digit_def)
  then show ?thesis ..
qed

lemma length_zfill: "length (zfill w s) = max w (length s)"
  by (simp add: zfill_def)

lemma decode_nonneg:
  assumes "7 < length report" and "0 \<le> report ! 7"
  shows "\<exists>bits. get_switch_statuses_from_report report = Inr bits
            \<and> length bits = max 8 (length (bin_str (nat (report ! 7))))
            \<and> set bits \<subseteq> {0, 1}"
proof -
  let ?s = "zfill 8 (bin_str (nat (report ! 7)))"
  obtain ds where ds: "?s = map bin_digit ds" using zfill_digits by blast
  have "comprehension int_of_char (map bin_digit ds) = Inr (map (\<lambda>d. if d = 0 then 0 else 1) ds)"
    by (rule comprehension_map) (rule int_of_char_bin_digit)
  then have dec: "get_switch_statuses_from_report report
                    = Inr (rev (map (\<lambda>d. if d = 0 then 0 else 1) ds))"
    using assms ds by (simp add: get_switch_statuses_from_report_def py_index_7 format_08b_def)
  have "length ds = length ?s" using ds by simp
  then have "length (rev (map (\<lambda>d. if d = 0 then 0 else 1 :: int) ds))
               = max 8 (length (bin_str (nat (report ! 7))))"
    by (simp add: length_zfill)
  moreover have "set (rev (map (\<lambda>d. if d = 0 then 0 else 1 :: int) ds)) \<subseteq> {0, 1}"
    by auto
  ultimately show ?thesis using dec by blast
qed

lemma decode_negative:
  assumes "7 < length report" and "report ! 7 < 0"
  shows "get_switch_statuses_from_report report = Inl ValueError"
  using assms
  by (simp add: get_switch_statuses_from_report_def py_index_7 format_08b_def int_of_char_def)

lemma decode_length_ge:
  assumes "get_switch_statuses_from_report report = Inr bits"
  shows "8 \<le> length bits"
proof -
  have len: "7 < length report"
  proof (rule ccontr)
    assume "\<not> 7 < length report"
    then have "py_index report 7 = Inl IndexError" by (simp add: py_index_def)
    with assms show False by (simp add: get_switch_statuses_from_report_def)
  qed
  have "0 \<le> report ! 7"
  proof (rule ccontr)
    assume "\<not> 0 \<le> report ! 7"
    then have "report ! 7 < 0" by simp
    with len assms decode_negative show False by fastforce
  qed
  with len obtain bs where "get_switch_statuses_from_report report = Inr bs"
    and "length bs = max 8 (length (bin_str (nat (report ! 7))))"
    using decode_nonneg by blast
  with assms show ?thesis by simp
qed

text \<open>C9. The decoded list has exactly eight elements, each 0 or 1, when the last
  number of the report is a byte; when it exceeds 255 the decoder still succeeds and
  returns more than eight elements.\<close>

theorem decode_length_depends_on_byte_range:
  assumes "7 < length report"
  shows "(0 \<le> report ! 7 \<and> report ! 7 \<le> 255 \<longrightarrow>
            (\<exists>bits. get_switch_statuses_from_report report = Inr bits
                \<and> length bits = 8 \<and> set bits \<subseteq> {0, 1}))
       \<and> (255 < report ! 7 \<longrightarrow>
            (\<exists>bits. get_switch_statuses_from_report report = Inr bits
                \<and> 8 < length bits))"
proof (intro conjI impI)
  assume range: "0 \<le> report ! 7 \<and> report ! 7 \<le> 255"
  then have "nat (report ! 7) < 2 ^ 8" by (simp add: nat_less_iff)
  then have "length (bin_str (nat (report ! 7))) \<le> 8"
    by (intro length_bin_str_le) simp_all
  then have "max 8 (length (bin_str (nat (report ! 7)))) = 8" by simp
  then show "\<exists>bits. get_switch_statuses_from_report report = Inr bits
                \<and> length bits = 8 \<and> set bits \<subseteq> {0, 1}"
    using decode_nonneg [OF assms] range by simp
next
  assume big: "255 < report ! 7"
  then have "2 ^ 8 \<le> nat (report ! 7)" by (simp add: le_nat_iff)
  then have "8 < length (bin_str (nat (report ! 7)))" by (rule length_bin_str_gt)
  then have "8 < max 8 (length (bin_str (nat (report ! 7))))" by simp
  moreover have "0 \<le> report ! 7" using big by simp
  ultimately show "\<exists>bits. get_switch_statuses_from_report report = Inr bits \<and> 8 < length bits"
    using decode_nonneg [OF assms] by fastforce
qed

theorem decode_length_depends_on_byte_range_witness:
  "(\<exists>bits. get_switch_statuses_from_report [76, 72, 67, 88, 73, 0, 0, 255] = Inr bits
       \<and> length bits = 8 \<and> set bits \<subseteq> {0, 1})
   \<and> (\<exists>bits. get_switch_statuses_from_report [76, 72, 67, 88, 73, 0, 0, 256] = Inr bits
       \<and> 8 < length bits)"
  using decode_length_depends_on_byte_range [of "[76, 72, 67, 88, 73, 0, 0, 255]"]
        decode_length_depends_on_byte_range [of "[76, 72, 67, 88, 73, 0, 0, 256]"]
  by simp

section \<open>Properties of the getter and setter\<close>

lemma calls_get_feature_report:
  "calls (snd (get_feature_report drv self)) = calls self @ [HidGetFeatureReport 1 8]"
  by (simp add: get_feature_report_def issue_def split: sum.splits prod.splits)

lemma calls_read_switch_statuses:
  "calls (snd (read_switch_statuses drv self)) = calls self @ [HidGetFeatureReport 1 8]"
  using calls_get_feature_report [of drv self]
  by (auto simp add: read_switch_statuses_def split: sum.splits prod.splits)

lemma calls_state_read:
  "calls (snd (state_read drv self relayport)) = calls self @ [HidGetFeatureReport 1 8]"
  using calls_read_switch_statuses [of drv self]
  by (auto simp add: state_read_def split: sum.splits prod.splits)

lemma calls_send_feature_report:
  "calls (snd (send_feature_report drv self message))
     = calls self @ [HidSendFeatureReport message]"
  by (simp add: send_feature_report_def issue_def split: sum.splits)

lemma send_feature_report_result:
  "fst (send_feature_report drv self message)
     = (case hid_send_feature_report drv (device_instance self) message of
          Inl e \<Rightarrow> Inl e | Inr h \<Rightarrow> Inr ())"
  by (simp add: send_feature_report_def split: sum.splits)

lemma read_switch_statuses_ok:
  assumes "hid_get_feature_report drv (device_instance self) 1 8 = Inr (report, h)"
  shows "read_switch_statuses drv self
           = (get_switch_statuses_from_report report,
              self\<lparr>device_instance := h, calls := calls self @ [HidGetFeatureReport 1 8]\<rparr>)"
  using assms by (simp add: read_switch_statuses_def get_feature_report_def issue_def)

lemma send_feature_report_ok:
  assumes "hid_send_feature_report drv (device_instance self) message = Inr h"
  shows "send_feature_report drv self message
           = (Inr (), self\<lparr>device_instance := h,
                             calls := calls self @ [HidSendFeatureReport message]\<rparr>)"
  using assms by (simp add: send_feature_report_def issue_def)

text \<open>C6. A call of \<open>state\<close> without \<open>turnon\<close> issues exactly one call on the
  device, the feature-report read: nothing is written.\<close>

theorem state_query_issues_no_write:
  "calls (snd (state drv self relayport None)) = calls self @ [HidGetFeatureReport 1 8]"
  by (simp add: state_def calls_state_read)

text \<open>C2. With \<open>turnon\<close> given, the first call \<open>state\<close> issues is the
  feature-report write of the command of the table: \<open>[0xFE]\<close> or \<open>[0xFC]\<close> for
  channel 0, \<open>[0xFF, n]\<close> or \<open>[0xFD, n]\<close> for another channel \<open>n\<close>; the read
  follows when the write did not fail.\<close>

theorem state_write_encoding:
  "calls (snd (state drv self relayport (Some turnon)))
     = calls self
       @ HidSendFeatureReport
           (if relayport = 0 then [if turnon then 0xFE else 0xFC]
            else [if turnon then 0xFF else 0xFD, relayport])
       # (case hid_send_feature_report drv (device_instance self)
                 (state_message relayport turnon) of
            Inl e \<Rightarrow> [] | Inr h \<Rightarrow> [HidGetFeatureReport 1 8])"
proof -
  let ?m = "state_message relayport turnon"
  have m: "?m = (if relayport = 0 then [if turnon then 0xFE else 0xFC]
                 else [if turnon then 0xFF else 0xFD, relayport])"
    by (simp add: state_message_def)
  show ?thesis
  proof (cases "hid_send_feature_report drv (device_instance self) ?m")
    case (Inl e)
    then have "state drv self relayport (Some turnon)
                 = (Inl e, issue (HidSendFeatureReport ?m) self)"
      by (simp add: state_def send_feature_report_def)
    then show ?thesis using Inl by (simp add: issue_def flip: m)
  next
    case (Inr h)
    then have "state drv self relayport (Some turnon)
                 = state_read drv (self\<lparr>device_instance := h,
                                       calls := calls self @ [HidSendFeatureReport ?m]\<rparr>) relayport"
      by (simp add: state_def send_feature_report_ok)
    then show ?thesis using Inr by (simp add: calls_state_read flip: m)
  qed
qed

lemma state_read_ok:
  assumes "hid_get_feature_report drv (device_instance self) 1 8 = Inr (report, h)"
    and "get_switch_statuses_from_report report = Inr bits"
  shows "state_read drv self relayport
           = (if relayport = 0 then Inr (StatusList (map py_bool bits))
              else (case py_index bits (relayport - 1) of
                      Inl e \<Rightarrow> Inl e
                    | Inr x \<Rightarrow> Inr (StatusBool (py_bool x))),
              self\<lparr>device_instance := h, calls := calls self @ [HidGetFeatureReport 1 8]\<rparr>)"
  using assms
  by (simp add: state_read_def read_switch_statuses_ok split: sum.splits)

lemma state_read_decode_error:
  assumes "hid_get_feature_report drv (device_instance self) 1 8 = Inr (report, h)"
    and "get_switch_statuses_from_report report = Inl e"
  shows "state_read drv self relayport
           = (Inl e, self\<lparr>device_instance := h, calls := calls self @ [HidGetFeatureReport 1 8]\<rparr>)"
  using assms
  by (simp add: state_read_def read_switch_statuses_ok)

lemma py_index_channel:
  assumes "8 \<le> length bits" and "1 \<le> c" and "c \<le> 8"
  shows "py_index bits (c - 1) = Inr (bits ! nat (c - 1))"
  using assms by (simp add: py_index_def)


lemma py_index_outside:
  assumes "length bits = 8" and "c < - 7 \<or> 8 < c"
  shows "py_index bits (c - 1) = Inl IndexError"
  using assms by (auto simp add: py_index_def)

lemma decode_byte_length:
  assumes "length report = 8" and "0 \<le> report ! 7" and "report ! 7 \<le> 255"
  shows "\<exists>bits. get_switch_statuses_from_report report = Inr bits \<and> length bits = 8"
proof -
  have "7 < length report" using assms(1) by simp
  then have "get_switch_statuses_from_report report
               = Inr (map (\<lambda>i. report ! 7 div 2 ^ i mod 2) [0..<8])"
    using assms(2,3) by (rule decode_byte)
  then show ?thesis by simp
qed

lemma state_after_write:
  assumes "(case turnon of
              None \<Rightarrow> Inr (device_instance self)
            | Some t \<Rightarrow> hid_send_feature_report drv (device_instance self)
                         (state_message relayport t)) = Inr h1"
  shows "state drv self relayport turnon
           = state_read drv
               (self\<lparr>device_instance := h1,
                      calls := calls self @ (case turnon of
                                               None \<Rightarrow> []
                                             | Some t \<Rightarrow> [HidSendFeatureReport
                                                           (state_message relayport t)])\<rparr>)
               relayport"
proof (cases turnon)
  case None
  with assms have "h1 = device_instance self" by simp
  with None show ?thesis by (simp add: state_def)
next
  case (Some t)
  with assms show ?thesis by (simp add: state_def send_feature_report_ok)
qed

lemma decode_fixture:
  "get_switch_statuses_from_report [76, 72, 67, 88, 73, 0, 0, 2] = Inr [0, 1, 0, 0, 0, 0, 0, 0]"
  by code_simp


text \<open>C4. For a channel in 0..8, with the device accepting the optional write and
  answering the read with a well-formed report, \<open>state\<close> reads and decodes the
  report after the write and returns the whole vector of eight booleans for channel 0,
  and otherwise the boolean at position \<open>channel - 1\<close> of that vector.\<close>

theorem state_reads_after_optional_write:
  assumes "0 \<le> c" and "c \<le> 8"
    and "(case turnon of
            None \<Rightarrow> Inr (device_instance self)
          | Some t \<Rightarrow> hid_send_feature_report drv (device_instance self)
                       (state_message c t)) = Inr h1"
    and "hid_get_feature_report drv h1 1 8 = Inr (report, h2)"
    and "length report = 8" and "0 \<le> report ! 7" and "report ! 7 \<le> 255"
  shows "\<exists>bits. get_switch_statuses_from_report report = Inr bits \<and> length bits = 8
           \<and> state drv self c turnon
               = (Inr (if c = 0 then StatusList (map py_bool bits)
                       else StatusBool (map py_bool bits ! nat (c - 1))),
                  self\<lparr>device_instance := h2,
                         calls := calls self
                           @ (case turnon of
                                None \<Rightarrow> []
                              | Some t \<Rightarrow> [HidSendFeatureReport (state_message c t)])
                           @ [HidGetFeatureReport 1 8]\<rparr>)"
proof -
  obtain bits where dec: "get_switch_statuses_from_report report = Inr bits"
    and len: "length bits = 8"
    using decode_byte_length [OF assms(5-7)] by blast
  let ?self1 = "self\<lparr>device_instance := h1,
                      calls := calls self @ (case turnon of
                                               None \<Rightarrow> []
                                             | Some t \<Rightarrow> [HidSendFeatureReport
                                                           (state_message c t)])\<rparr>"
  have st: "state drv self c turnon = state_read drv ?self1 c"
    using assms(3) by (rule state_after_write)
  have g: "hid_get_feature_report drv (device_instance ?self1) 1 8 = Inr (report, h2)"
    using assms(4) by simp
  have rd: "state_read drv ?self1 c
              = (if c = 0 then Inr (StatusList (map py_bool bits))
                 else (case py_index bits (c - 1) of
                         Inl e \<Rightarrow> Inl e
                       | Inr x \<Rightarrow> Inr (StatusBool (py_bool x))),
                 ?self1\<lparr>device_instance := h2,
                         calls := calls ?self1 @ [HidGetFeatureReport 1 8]\<rparr>)"
    using g dec by (rule state_read_ok)
  have "state drv self c turnon
          = (Inr (if c = 0 then StatusList (map py_bool bits)
                  else StatusBool (map py_bool bits ! nat (c - 1))),
             self\<lparr>device_instance := h2,
                    calls := calls self
                      @ (case turnon of
                           None \<Rightarrow> []
                         | Some t \<Rightarrow> [HidSendFeatureReport (state_message c t)])
                      @ [HidGetFeatureReport 1 8]\<rparr>)"
  proof (cases "c = 0")
    case True
    then show ?thesis unfolding st rd by simp
  next
    case False
    with assms(1,2) have "1 \<le> c" by simp
    then have "py_index bits (c - 1) = Inr (bits ! nat (c - 1))"
      using len assms(2) by (intro py_index_channel) simp_all
    moreover have "nat (c - 1) < length bits" using len assms(2) by simp
    ultimately show ?thesis using False unfolding st rd by simp
  qed
  with dec len show ?thesis by blast
qed

theorem state_reads_after_optional_write_witness:
  "state (fixed_device [76, 72, 67, 88, 73, 0, 0, 2]) fresh 2 (Some True)
     = (Inr (StatusBool True),
        \<lparr>device_instance = (),
         calls = [HidSendFeatureReport [0xFF, 2], HidGetFeatureReport 1 8]\<rparr>)
   \<and> state (fixed_device [76, 72, 67, 88, 73, 0, 0, 2]) fresh 0 None
     = (Inr (StatusList [False, True, False, False, False, False, False, False]),
        \<lparr>device_instance = (), calls = [HidGetFeatureReport 1 8]\<rparr>)"
  using state_reads_after_optional_write
          [where c = 2 and turnon = "Some True" and self = fresh
             and drv = "fixed_device [76, 72, 67, 88, 73, 0, 0, 2]" and ?h1.0 = "()"
             and report = "[76, 72, 67, 88, 73, 0, 0, 2]" and ?h2.0 = "()"]
        state_reads_after_optional_write
          [where c = 0 and turnon = None and self = fresh
             and drv = "fixed_device [76, 72, 67, 88, 73, 0, 0, 2]" and ?h1.0 = "()"
             and report = "[76, 72, 67, 88, 73, 0, 0, 2]" and ?h2.0 = "()"]
  by (simp add: fixed_device_def fresh_def decode_fixture state_message_def py_bool_def)


text \<open>C5. When the device answers two successive reads with the same report and the
  query of channel 0 returned the vector \<open>v\<close>, the query of a channel \<open>c\<close> in 1..8
  returns \<open>v[c - 1]\<close>.\<close>

theorem state_single_matches_vector:
  assumes "1 \<le> c" and "c \<le> 8"
    and "hid_get_feature_report drv (device_instance self) 1 8 = Inr (report, h1)"
    and "hid_get_feature_report drv h1 1 8 = Inr (report, h2)"
    and "state drv self 0 None = (Inr (StatusList v), self1)"
  shows "nat (c - 1) < length v
       \<and> fst (state drv self1 c None) = Inr (StatusBool (v ! nat (c - 1)))"
proof -
  let ?self' = "self\<lparr>device_instance := h1, calls := calls self @ [HidGetFeatureReport 1 8]\<rparr>"
  obtain bits where dec: "get_switch_statuses_from_report report = Inr bits"
  proof (cases "get_switch_statuses_from_report report")
    case (Inl e)
    then have "state drv self 0 None = (Inl e, ?self')"
      using assms(3) by (simp add: state_def state_read_decode_error)
    with assms(5) show ?thesis by simp
  next
    case (Inr bits)
    then show ?thesis by (rule that)
  qed
  have "state drv self 0 None = (Inr (StatusList (map py_bool bits)), ?self')"
    using assms(3) dec by (simp add: state_def state_read_ok)
  with assms(5) have v: "v = map py_bool bits" and s1: "self1 = ?self'" by simp_all
  have len: "8 \<le> length bits" using dec by (rule decode_length_ge)
  have idx: "py_index bits (c - 1) = Inr (bits ! nat (c - 1))"
    using len assms(1,2) by (rule py_index_channel)
  have lt: "nat (c - 1) < length bits" using len assms(2) by simp
  have g: "hid_get_feature_report drv (device_instance self1) 1 8 = Inr (report, h2)"
    using assms(4) s1 by simp
  have "fst (state drv self1 c None) = Inr (StatusBool (py_bool (bits ! nat (c - 1))))"
    using assms(1) idx by (simp add: state_def state_read_ok [OF g dec])
  then show ?thesis using lt v by simp
qed

theorem state_single_matches_vector_witness:
  "fst (state (fixed_device [76, 72, 67, 88, 73, 0, 0, 2])
          (snd (state (fixed_device [76, 72, 67, 88, 73, 0, 0, 2]) fresh 0 None)) 2 None)
     = Inr (StatusBool ([False, True, False, False, False, False, False, False] ! 1))"
proof -
  let ?drv = "fixed_device [76, 72, 67, 88, 73, 0, 0, 2]"
  have g1: "hid_get_feature_report ?drv (device_instance fresh) 1 8
              = Inr ([76, 72, 67, 88, 73, 0, 0, 2], ())"
    by (simp add: fixed_device_def)
  have g2: "hid_get_feature_report ?drv () 1 8 = Inr ([76, 72, 67, 88, 73, 0, 0, 2], ())"
    by (simp add: fixed_device_def)
  have s0: "state ?drv fresh 0 None
              = (Inr (StatusList [False, True, False, False, False, False, False, False]),
                 snd (state ?drv fresh 0 None))"
    by (simp add: state_def state_read_ok [OF g1 decode_fixture] py_bool_def)
  have c1: "(1::int) \<le> 2" and c2: "(2::int) \<le> 8" by simp_all
  show ?thesis
    using state_single_matches_vector [OF c1 c2 g1 g2 s0] by simp
qed

text \<open>C3, as the code has it. A channel outside 0..8 is not checked before the device
  is used: for a channel below -7 or above 8 the optional write is issued first and,
  when the device has accepted it, the read; with a well-formed report read, the
  selection from the decoded list then raises \<open>IndexError\<close>.\<close>

theorem state_out_of_range_after_io:
  assumes "c < - 7 \<or> 8 < c"
    and "(case turnon of
            None \<Rightarrow> Inr (device_instance self)
          | Some t \<Rightarrow> hid_send_feature_report drv (device_instance self)
                       (state_message c t)) = Inr h1"
    and "hid_get_feature_report drv h1 1 8 = Inr (report, h2)"
    and "length report = 8" and "0 \<le> report ! 7" and "report ! 7 \<le> 255"
  shows "state drv self c turnon
           = (Inl IndexError,
              self\<lparr>device_instance := h2,
                     calls := calls self
                       @ (case turnon of
                            None \<Rightarrow> []
                          | Some t \<Rightarrow> [HidSendFeatureReport (state_message c t)])
                       @ [HidGetFeatureReport 1 8]\<rparr>)"
proof -
  obtain bits where dec: "get_switch_statuses_from_report report = Inr bits"
    and len: "length bits = 8"
    using decode_byte_length [OF assms(4-6)] by blast
  let ?self1 = "self\<lparr>device_instance := h1,
                      calls := calls self @ (case turnon of
                                               None \<Rightarrow> []
                                             | Some t \<Rightarrow> [HidSendFeatureReport
                                                           (state_message c t)])\<rparr>"
  have st: "state drv self c turnon = state_read drv ?self1 c"
    using assms(2) by (rule state_after_write)
  have g: "hid_get_feature_report drv (device_instance ?self1) 1 8 = Inr (report, h2)"
    using assms(3) by simp
  have idx: "py_index bits (c - 1) = Inl IndexError"
    using len assms(1) by (rule py_index_outside)
  have "c \<noteq> 0" using assms(1) by auto
  then show ?thesis
    unfolding st state_read_ok [OF g dec] using idx by simp
qed

theorem state_out_of_range_after_io_witness:
  "state (fixed_device [76, 72, 67, 88, 73, 0, 0, 2]) fresh 9 (Some True)
     = (Inl IndexError,
        \<lparr>device_instance = (),
         calls = [HidSendFeatureReport [0xFF, 9], HidGetFeatureReport 1 8]\<rparr>)"
  using state_out_of_range_after_io
          [where c = 9 and turnon = "Some True" and self = fresh
             and drv = "fixed_device [76, 72, 67, 88, 73, 0, 0, 2]" and ?h1.0 = "()"
             and report = "[76, 72, 67, 88, 73, 0, 0, 2]" and ?h2.0 = "()"]
  by (simp add: fixed_device_def fresh_def state_message_def)

theorem state_out_of_range_counterexample:
  "state (fixed_device [76, 72, 67, 88, 73, 0, 0, 2]) fresh 9 None
     = (Inl IndexError, \<lparr>device_instance = (), calls = [HidGetFeatureReport 1 8]\<rparr>)"
proof -
  have g: "hid_get_feature_report (fixed_device [76, 72, 67, 88, 73, 0, 0, 2])
             (device_instance fresh) 1 8 = Inr ([76, 72, 67, 88, 73, 0, 0, 2], ())"
    by (simp add: fixed_device_def)
  have "state (fixed_device [76, 72, 67, 88, 73, 0, 0, 2]) fresh 9 None
          = (Inl IndexError,
             fresh\<lparr>device_instance := (), calls := calls fresh @ [HidGetFeatureReport 1 8]\<rparr>)"
    by (simp add: state_def state_read_ok [OF g decode_fixture] py_index_def)
  then show ?thesis by (simp add: fresh_def)
qed




section \<open>Properties of the command line\<close>

lemma getattr_parse_args:
  "getattr (parse_args port switch idVvendor idProduct) ''port'' = Inr (Some port)"
  "getattr (parse_args port switch idVvendor idProduct) ''switch'' = Inr switch"
  "getattr (parse_args port switch idVvendor idProduct) ''idVendor'' = Inl AttributeError"
  by (simp_all add: getattr_def parse_args_def)

text \<open>Whatever is given on the command line, the main block ends before the device
  is opened: the namespace has no attribute \<open>idVendor\<close>.\<close>

lemma main_never_opens:
  "main drv (parse_args port switch idVvendor idProduct)
     = (case py_int port of Inl e \<Rightarrow> (Inl e, []) | Inr _ \<Rightarrow> (Inl AttributeError, []))"
  by (simp add: main_def main_args_def getattr_parse_args Let_def split: sum.splits)

text \<open>With the attribute names as the main block reads them, a given identifier
  would reach \<open>open\<close> as the boolean \<open>True\<close>, not as its number.\<close>

lemma main_args_presence_check:
  "main_args [''port'' \<mapsto> Some ''1'', ''switch'' \<mapsto> None,
              ''idVendor'' \<mapsto> Some ''5824'', ''idProduct'' \<mapsto> Some ''1503'']
     = Inr (1, None, PyBool True, PyBool True)"
  by (simp add: main_args_def getattr_def py_int_def strip_def is_space_def
      digits_value_def int_of_char_def truthy_def)

text \<open>C7. On the command line \<open>--port 1 --idVvendor 5824 --idProduct 1503\<close> the
  main block raises \<open>AttributeError\<close> and no call is issued on the device: the
  identifiers given never reach \<open>open\<close>.\<close>

theorem main_vendor_product_override:
  "main drv (parse_args ''1'' None (Some ''5824'') (Some ''1503''))
     = (Inl AttributeError, [])"
  by (simp add: main_def main_args_def getattr_parse_args py_int_def strip_def is_space_def
      digits_value_def int_of_char_def)

section \<open>Closing the device\<close>

text \<open>\<open>cleanup\<close> has no guard of its own: it raises exactly when the \<open>close\<close> of
  the HID binding does.\<close>

lemma cleanup_delegates:
  "fst (cleanup drv self)
     = (case hid_close drv (device_instance self) of Inl e \<Rightarrow> Inl e | Inr h \<Rightarrow> Inr ())"
  by (simp add: cleanup_def split: sum.splits)

end
